theory Spec2Isabelle
  imports Complex_Main "HOL-Library.Sublist" "HOL-Library.Log_Nat"
begin

section \<open>System information server: a shallow embedding of \<open>system_info_server.py\<close>\<close>

text \<open>
  Conventions of the model.
  \<^item> Python text is a HOL \<open>string\<close>, one \<open>char\<close> per code point; the model therefore
    covers text whose code points are below 256.
  \<^item> A finite Python \<open>float\<close> is the \<open>real\<close> that the binary double denotes; every
    float operation rounds its exact result to the nearest double.
  \<^item> An exception is a value of type \<open>error\<close>; a function that can raise returns
    \<open>error + 'a\<close> with \<open>Inl\<close> for the exception. The text \<open>str(e)\<close> of an exception is
    made by the interpreter, not by this program, and is a parameter \<open>str_e\<close>.
  \<^item> The host (psutil, the clock, the \<open>netstat\<close> process) is not part of the program:
    the outcome of each query is an input of the model.
\<close>

subsection \<open>Exceptions\<close>

datatype error =
    ValueError string          \<comment> \<open>\<open>int()\<close> on what it could not convert\<close>
  | AttributeError string
  | OSError string
  | ZeroDivisionError
  | OverflowError
  | ValidationError string     \<comment> \<open>pydantic rejects a field value\<close>
  | OtherException string      \<comment> \<open>any other subclass of \<open>Exception\<close>\<close>

subsection \<open>Text primitives\<close>

text \<open>\<open>str.isspace\<close> on one code point, which is also what \<open>\<bsol>s\<close> matches in \<open>re\<close> and what
  \<open>str.strip()\<close> removes.\<close>

definition py_isspace :: "char \<Rightarrow> bool" where
  "py_isspace c = ((of_char c :: nat) \<in> {9, 10, 11, 12, 13, 28, 29, 30, 31, 32, 133, 160})"

text \<open>The line boundaries of \<open>str.splitlines\<close>.\<close>

definition is_linebreak :: "char \<Rightarrow> bool" where
  "is_linebreak c = ((of_char c :: nat) \<in> {10, 11, 12, 13, 28, 29, 30, 133})"

text \<open>\<open>str.splitlines()\<close>: \<open>cur\<close> is the line read so far. A carriage return followed by a
  line feed is one boundary; no empty line follows a final boundary.\<close>

fun splitlines_from :: "string \<Rightarrow> string \<Rightarrow> string list" where
  "splitlines_from cur [] = (if cur = [] then [] else [cur])"
| "splitlines_from cur (c # cs) =
     (if is_linebreak c then
        (case cs of
           d # ds \<Rightarrow>
             if c = CHR 0x0D \<and> d = CHR 0x0A then cur # splitlines_from [] ds
             else cur # splitlines_from [] (d # ds)
         | [] \<Rightarrow> [cur])
      else splitlines_from (cur @ [c]) cs)"

definition splitlines :: "string \<Rightarrow> string list" where
  "splitlines s = splitlines_from [] s"

text \<open>\<open>str.strip()\<close> with no argument.\<close>

definition strip :: "string \<Rightarrow> string" where
  "strip s = rev (dropWhile py_isspace (rev (dropWhile py_isspace s)))"

text \<open>\<open>re.split(r"\<bsol>s+", s)\<close>: the pieces between the maximal runs of whitespace, with an
  empty piece before a leading run and after a trailing one.\<close>

function re_split_from :: "string \<Rightarrow> string \<Rightarrow> string list" where
  "re_split_from cur [] = [cur]"
| "re_split_from cur (c # cs) =
     (if py_isspace c then cur # re_split_from [] (dropWhile py_isspace cs)
      else re_split_from (cur @ [c]) cs)"
  by pat_completeness auto
termination
  by (relation "measure (\<lambda>(cur, s). length s)")
     (auto simp: length_dropWhile_le le_imp_less_Suc)

definition re_split_ws :: "string \<Rightarrow> string list" where
  "re_split_ws s = re_split_from [] s"

text \<open>\<open>sub in s\<close> on strings.\<close>

fun str_contains :: "string \<Rightarrow> string \<Rightarrow> bool" where
  "str_contains sub [] = (sub = [])"
| "str_contains sub (c # cs) = (prefix sub (c # cs) \<or> str_contains sub cs)"

text \<open>\<open>str.lower()\<close>.\<close>

definition lower_char :: "char \<Rightarrow> char" where
  "lower_char c =
     (let n = (of_char c :: nat) in
      if (65 \<le> n \<and> n \<le> 90) \<or> (192 \<le> n \<and> n \<le> 214) \<or> (216 \<le> n \<and> n \<le> 222)
      then char_of (n + 32) else c)"

definition py_lower :: "string \<Rightarrow> string" where
  "py_lower s = map lower_char s"

text \<open>\<open>str(n)\<close> of an integer, as an f-string renders it.\<close>

definition digit_char :: "nat \<Rightarrow> char" where
  "digit_char d = ''0123456789'' ! d"

fun str_nat :: "nat \<Rightarrow> string" where
  "str_nat n = (if n < 10 then [digit_char n] else str_nat (n div 10) @ [digit_char (n mod 10)])"

declare str_nat.simps [simp del]

definition str_int :: "int \<Rightarrow> string" where
  "str_int i = (if i < 0 then CHR ''-'' # str_nat (nat (- i)) else str_nat (nat i))"

text \<open>
  \<open>int(s)\<close> on a string, base 10: optional surrounding whitespace, an optional sign, then
  decimal digits with single underscores allowed between digits. The interpreter maps a
  string that is not pure ASCII through a table first (a code point below 127 stays,
  whitespace from 127 on becomes a space, any other code point below 256 a character
  that is no digit), and it refuses more than \<open>int_max_str_digits\<close> digits.
\<close>

definition is_digit :: "char \<Rightarrow> bool" where
  "is_digit c = (48 \<le> (of_char c :: nat) \<and> (of_char c :: nat) \<le> 57)"

definition digit_val :: "char \<Rightarrow> int" where
  "digit_val c = int (of_char c) - 48"

definition c_isspace :: "char \<Rightarrow> bool" where
  "c_isspace c = ((of_char c :: nat) \<in> {9, 10, 11, 12, 13, 32})"

definition to_ascii :: "string \<Rightarrow> string" where
  "to_ascii s =
     (if \<forall>c \<in> set s. (of_char c :: nat) < 128 then s
      else map (\<lambda>c. if (of_char c :: nat) < 127 then c
                     else if py_isspace c then CHR '' '' else CHR ''?'') s)"

text \<open>The digits after the sign; \<open>prev\<close> tells whether the previous character was a digit.\<close>

fun digits_value :: "bool \<Rightarrow> int \<Rightarrow> string \<Rightarrow> int option" where
  "digits_value prev acc [] = (if prev then Some acc else None)"
| "digits_value prev acc (c # cs) =
     (if is_digit c then digits_value True (10 * acc + digit_val c) cs
      else if c = CHR ''_'' \<and> prev then
        (case cs of d # ds \<Rightarrow> if is_digit d then digits_value False acc cs else None
                  | [] \<Rightarrow> None)
      else None)"

definition int_max_str_digits :: nat where
  "int_max_str_digits = 4300"

definition py_int :: "string \<Rightarrow> error + int" where
  "py_int s =
     (let t = rev (dropWhile c_isspace (rev (dropWhile c_isspace (to_ascii s))));
          (neg, body) = (case t of
                           c # cs \<Rightarrow> if c = CHR ''-'' then (True, cs)
                                     else if c = CHR ''+'' then (False, cs)
                                     else (False, t)
                         | [] \<Rightarrow> (False, t))
      in if int_max_str_digits < length (filter is_digit body) then Inl (ValueError s)
         else (case digits_value False 0 body of
                 None \<Rightarrow> Inl (ValueError s)
               | Some v \<Rightarrow> Inr (if neg then - v else v)))"

subsection \<open>The port lookup\<close>

record NetstatPortInfo =
  port :: int
  pid :: "int option"
  protocol :: "string option"
  local_address :: "string option"
  foreign_address :: "string option"
  state :: "string option"
  raw_line :: string

text \<open>The outcome of \<open>subprocess.run(["netstat", "-ano"], ...)\<close>: an exception, or the
  captured standard output.\<close>

type_synonym run_result = "error + string"

definition port_needle :: "int \<Rightarrow> string" where
  "port_needle p = CHR '':'' # str_int p @ '' ''"

definition not_found :: "int \<Rightarrow> NetstatPortInfo" where
  "not_found p =
     \<lparr>port = p, pid = None, protocol = None, local_address = None,
      foreign_address = None, state = None, raw_line = ''Not found''\<rparr>"

definition error_record :: "(error \<Rightarrow> string) \<Rightarrow> int \<Rightarrow> error \<Rightarrow> NetstatPortInfo" where
  "error_record str_e p e =
     \<lparr>port = p, pid = None, protocol = None, local_address = None,
      foreign_address = None, state = None, raw_line = ''Error: '' @ str_e e\<rparr>"

text \<open>The \<open>for line in output.splitlines()\<close> loop, with the \<open>return\<close> after it.\<close>

fun scan_lines :: "int \<Rightarrow> string list \<Rightarrow> error + NetstatPortInfo" where
  "scan_lines p [] = Inr (not_found p)"
| "scan_lines p (line # rest) =
     (if str_contains (port_needle p) line then
        (let parts = re_split_ws (strip line) in
         if 5 \<le> length parts then
           (let proto = parts ! 0;
                la = parts ! 1;
                fa = parts ! 2;
                st = (if py_lower proto = ''tcp'' then parts ! 3 else '''')
            in case py_int (last parts) of
                 Inl e \<Rightarrow> Inl e
               | Inr n \<Rightarrow>
                   Inr \<lparr>port = p, pid = Some n, protocol = Some proto,
                        local_address = Some la, foreign_address = Some fa,
                        state = Some st, raw_line = strip line\<rparr>)
         else scan_lines p rest)
      else scan_lines p rest)"

text \<open>The body of the \<open>try\<close>.\<close>

definition port_lookup_body :: "int \<Rightarrow> run_result \<Rightarrow> error + NetstatPortInfo" where
  "port_lookup_body p run =
     (case run of
        Inl e \<Rightarrow> Inl e
      | Inr output \<Rightarrow> scan_lines p (splitlines output))"

text \<open>The whole function: \<open>except Exception as e\<close> turns every exception of the body into
  the error record.\<close>

definition get_port_info_netstat ::
    "(error \<Rightarrow> string) \<Rightarrow> int \<Rightarrow> run_result \<Rightarrow> error + NetstatPortInfo" where
  "get_port_info_netstat str_e p run =
     (case port_lookup_body p run of
        Inl e \<Rightarrow> Inr (error_record str_e p e)
      | Inr r \<Rightarrow> Inr r)"

subsection \<open>Floating-point numbers\<close>

text \<open>
  A finite Python float is a binary double, modelled by the real number it denotes.
  \<open>nearest_double x\<close> is the double nearest to the real \<open>x\<close>, a tie going to the even
  significand: with \<open>2\<^sup>b \<le> |x| < 2\<^sup>b\<^sup>+\<^sup>1\<close>, the spacing of the doubles at \<open>x\<close> is \<open>2\<^sup>e\<close> for
  \<open>e = max (b - 52) (-1074)\<close>, the lower bound being the spacing of the subnormal
  numbers. The exponent is not bounded from above here: every operation tests its
  result against \<open>2\<^sup>1\<^sup>0\<^sup>2\<^sup>4\<close>. The sign of a zero is not modelled.
\<close>

definition pow2 :: "int \<Rightarrow> real" where
  "pow2 e = (if 0 \<le> e then 2 ^ nat e else 1 / 2 ^ nat (- e))"

definition round_half_even :: "real \<Rightarrow> int" where
  "round_half_even s =
     (let f = \<lfloor>s\<rfloor>; d = s - of_int f
      in if d < 1 / 2 then f else if 1 / 2 < d then f + 1
         else if even f then f else f + 1)"

text \<open>For \<open>x > 0\<close>, the \<open>b\<close> with \<open>2\<^sup>b \<le> x < 2\<^sup>b\<^sup>+\<^sup>1\<close>, from the bit length of the integer part of
  \<open>x\<close> or of \<open>1 / x\<close>.\<close>

definition binade :: "real \<Rightarrow> int" where
  "binade x =
     (if 1 \<le> x then bitlen \<lfloor>x\<rfloor> - 1
      else (let l = bitlen \<lfloor>1 / x\<rfloor>
            in if x * 2 ^ nat (l - 1) = 1 then 1 - l else - l))"

definition nearest_double :: "real \<Rightarrow> real" where
  "nearest_double x =
     (if x = 0 then 0
      else (let e = max (binade \<bar>x\<bar> - 52) (- 1074)
            in sgn x * of_int (round_half_even (\<bar>x\<bar> / pow2 e)) * pow2 e))"

text \<open>The value of a float operation whose exact result is \<open>x\<close>: the nearest double, or
  an infinity when that is beyond the largest double.\<close>

datatype pyfloat = Finite real | PosInf | NegInf

definition float_result :: "real \<Rightarrow> pyfloat" where
  "float_result x =
     (let r = nearest_double x
      in if 2 ^ 1024 \<le> r then PosInf else if r \<le> - (2 ^ 1024) then NegInf else Finite r)"

text \<open>\<open>a / b\<close> on two integers: the quotient is rounded once, a zero divisor raises
  \<open>ZeroDivisionError\<close> and a quotient beyond the largest double \<open>OverflowError\<close>.\<close>

definition int_truediv :: "int \<Rightarrow> int \<Rightarrow> error + real" where
  "int_truediv a b =
     (if b = 0 then Inl ZeroDivisionError
      else (case float_result (of_int a / of_int b) of
              Finite q \<Rightarrow> Inr q
            | PosInf \<Rightarrow> Inl OverflowError
            | NegInf \<Rightarrow> Inl OverflowError))"

text \<open>\<open>round(x, ndigits)\<close> on a finite float: the exact value of \<open>x\<close> is rounded to a
  multiple of \<open>10\<^sup>-\<^sup>n\<^sup>d\<close>, a tie going to the even multiple, and the result is the double
  nearest to that decimal. An infinity rounds to itself.\<close>

definition py_round :: "real \<Rightarrow> nat \<Rightarrow> real" where
  "py_round x nd = nearest_double (of_int (round_half_even (x * 10 ^ nd)) / 10 ^ nd)"

definition round_float :: "pyfloat \<Rightarrow> nat \<Rightarrow> pyfloat" where
  "round_float v nd = (case v of Finite x \<Rightarrow> Finite (py_round x nd) | PosInf \<Rightarrow> PosInf
                                | NegInf \<Rightarrow> NegInf)"

text \<open>\<open>int(x)\<close> on a finite float cuts the fraction off.\<close>

definition int_of_float :: "real \<Rightarrow> int" where
  "int_of_float x = (if 0 \<le> x then \<lfloor>x\<rfloor> else - \<lfloor>- x\<rfloor>)"

text \<open>
  \<open>x % y\<close> and \<open>x // y\<close> on finite floats with \<open>y > 0\<close>, as the interpreter computes
  them: \<open>fmod\<close> is exact and has the sign of \<open>x\<close>; a negative remainder is moved up by
  \<open>y\<close>, and the quotient \<open>(x - mod) / y\<close> down by one, each with its own rounding; the
  quotient is then brought to a whole number.
\<close>

definition c_fmod :: "real \<Rightarrow> real \<Rightarrow> real" where
  "c_fmod x y = x - y * of_int (int_of_float (x / y))"

definition py_mod :: "real \<Rightarrow> real \<Rightarrow> real" where
  "py_mod x y = (let m = c_fmod x y in if m < 0 then nearest_double (m + y) else m)"

definition py_floordiv :: "real \<Rightarrow> real \<Rightarrow> real" where
  "py_floordiv x y =
     (let m = c_fmod x y;
          d0 = nearest_double (nearest_double (x - m) / y);
          d = (if m < 0 then nearest_double (d0 - 1) else d0)
      in if d = 0 then 0
         else (let f = of_int \<lfloor>d\<rfloor> in if 1 / 2 < d - f then f + 1 else f))"

definition bytes_to_gb :: "int \<Rightarrow> error + real" where
  "bytes_to_gb bytes_value =
     (case int_truediv bytes_value (1024 ^ 3) of
        Inl e \<Rightarrow> Inl e
      | Inr q \<Rightarrow> Inr (py_round q 2))"

subsection \<open>The result records\<close>

record TimeInfo =
  current_time_ist :: string
  current_time_utc :: string
  timezone :: string
  timestamp :: real

record MemoryInfo =
  total_gb :: real
  available_gb :: real
  used_gb :: real
  percentage_used :: real
  free_gb :: real

record CPUInfo =
  cpu_percent :: real
  cpu_count :: int
  cpu_freq_current :: real
  load_average :: "real list"

text \<open>Of all the floats of the records only the disk percentage can be infinite: it
  is a product.\<close>

record DiskInfo =
  total_gb :: real
  used_gb :: real
  free_gb :: real
  percentage_used :: pyfloat

record SystemInfo =
  time_info :: TimeInfo
  memory_info :: MemoryInfo
  cpu_info :: CPUInfo
  disk_info :: DiskInfo
  platform_info :: "string \<rightharpoonup> string"

subsection \<open>What the host answers\<close>

text \<open>The floats that the host answers are finite. The clock read by
  \<open>get_current_time\<close>: the instant as \<open>strftime\<close> renders it in the two zones, and its
  Unix timestamp.\<close>

record clock_reading =
  ist_text :: string
  utc_text :: string
  epoch :: real

text \<open>\<open>psutil.virtual_memory()\<close> and \<open>psutil.disk_usage('/')\<close>.\<close>

record svmem =
  vm_total :: int
  vm_available :: int
  vm_used :: int
  vm_percent :: real
  vm_free :: int

record sdiskusage =
  du_total :: int
  du_used :: int
  du_free :: int

text \<open>One outcome per query that \<open>get_system_info\<close> makes: an exception or a value.
  \<open>psutil.cpu_count()\<close> and \<open>psutil.cpu_freq()\<close> may answer \<open>None\<close>; of a frequency only the
  field \<open>current\<close> is read. \<open>psutil.getloadavg()\<close> answers a tuple of three floats.\<close>

record host =
  clock :: "error + clock_reading"
  psutil_virtual_memory :: "error + svmem"
  psutil_cpu_percent :: "error + real"
  psutil_cpu_count :: "error + int option"
  psutil_cpu_freq :: "error + real option"
  psutil_getloadavg :: "error + real \<times> real \<times> real"
  psutil_disk_usage :: "error + sdiskusage"
  platform_system :: string
  platform_platform :: string
  platform_machine :: string
  platform_processor :: string
  platform_python_version :: string
  platform_node :: string

subsection \<open>The collectors\<close>

definition get_current_time :: "error + clock_reading \<Rightarrow> error + TimeInfo" where
  "get_current_time now =
     (case now of
        Inl e \<Rightarrow> Inl e
      | Inr c \<Rightarrow>
          Inr \<lparr>current_time_ist = ist_text c, current_time_utc = utc_text c,
               timezone = ''Asia/Kolkata (IST)'', timestamp = epoch c\<rparr>)"

text \<open>The keyword arguments are evaluated from left to right.\<close>

definition get_memory_usage :: "error + svmem \<Rightarrow> error + MemoryInfo" where
  "get_memory_usage vm =
     (case vm of
        Inl e \<Rightarrow> Inl e
      | Inr memory \<Rightarrow>
     (case bytes_to_gb (vm_total memory) of
        Inl e \<Rightarrow> Inl e
      | Inr total_v \<Rightarrow>
     (case bytes_to_gb (vm_available memory) of
        Inl e \<Rightarrow> Inl e
      | Inr available_v \<Rightarrow>
     (case bytes_to_gb (vm_used memory) of
        Inl e \<Rightarrow> Inl e
      | Inr used_v \<Rightarrow>
     (case bytes_to_gb (vm_free memory) of
        Inl e \<Rightarrow> Inl e
      | Inr free_v \<Rightarrow>
          Inr \<lparr>MemoryInfo.total_gb = total_v, available_gb = available_v,
               MemoryInfo.used_gb = used_v,
               MemoryInfo.percentage_used = py_round (vm_percent memory) 1,
               MemoryInfo.free_gb = free_v\<rparr>)))))"

text \<open>The \<open>try\<close> around \<open>psutil.getloadavg()\<close>: \<open>AttributeError\<close> and \<open>OSError\<close> give the three
  zeros, any other exception goes on.\<close>

definition load_avg_or_zeros :: "error + real \<times> real \<times> real \<Rightarrow> error + real list" where
  "load_avg_or_zeros q =
     (case q of
        Inr (a, b, c) \<Rightarrow> Inr [a, b, c]
      | Inl (AttributeError m) \<Rightarrow> Inr [0, 0, 0]
      | Inl (OSError m) \<Rightarrow> Inr [0, 0, 0]
      | Inl e \<Rightarrow> Inl e)"

text \<open>The queries run in the order of the source; \<open>CPUInfo\<close> rejects a core count that is
  \<open>None\<close>.\<close>

definition get_cpu_usage ::
    "error + real \<Rightarrow> error + int option \<Rightarrow> error + real option \<Rightarrow>
     error + real \<times> real \<times> real \<Rightarrow> error + CPUInfo" where
  "get_cpu_usage percent_q count_q freq_q loadavg_q =
     (case percent_q of
        Inl e \<Rightarrow> Inl e
      | Inr cpu_percent_v \<Rightarrow>
     (case count_q of
        Inl e \<Rightarrow> Inl e
      | Inr cpu_count_v \<Rightarrow>
     (case freq_q of
        Inl e \<Rightarrow> Inl e
      | Inr cpu_freq \<Rightarrow>
          (let current_freq = (case cpu_freq of Some f \<Rightarrow> f | None \<Rightarrow> 0) in
           case load_avg_or_zeros loadavg_q of
             Inl e \<Rightarrow> Inl e
           | Inr load_avg \<Rightarrow>
               (case cpu_count_v of
                  None \<Rightarrow> Inl (ValidationError ''cpu_count'')
                | Some n \<Rightarrow>
                    Inr \<lparr>cpu_percent = py_round cpu_percent_v 1, cpu_count = n,
                         cpu_freq_current = py_round current_freq 1,
                         load_average = map (\<lambda>x. py_round x 2) load_avg\<rparr>)))))"

text \<open>\<open>disk_usage.used / disk_usage.total\<close> is a division of two integers; its product
  with 100 is a float product and may be infinite.\<close>

definition get_disk_usage :: "error + sdiskusage \<Rightarrow> error + DiskInfo" where
  "get_disk_usage du =
     (case du of
        Inl e \<Rightarrow> Inl e
      | Inr disk_usage \<Rightarrow>
     (case bytes_to_gb (du_total disk_usage) of
        Inl e \<Rightarrow> Inl e
      | Inr total_v \<Rightarrow>
     (case bytes_to_gb (du_used disk_usage) of
        Inl e \<Rightarrow> Inl e
      | Inr used_v \<Rightarrow>
     (case bytes_to_gb (du_free disk_usage) of
        Inl e \<Rightarrow> Inl e
      | Inr free_v \<Rightarrow>
     (case int_truediv (du_used disk_usage) (du_total disk_usage) of
        Inl e \<Rightarrow> Inl e
      | Inr q \<Rightarrow>
          Inr \<lparr>DiskInfo.total_gb = total_v, DiskInfo.used_gb = used_v,
               DiskInfo.free_gb = free_v,
               DiskInfo.percentage_used = round_float (float_result (q * 100)) 1\<rparr>)))))"

definition platform_dict :: "host \<Rightarrow> (string \<rightharpoonup> string)" where
  "platform_dict h =
     map_of [(''system'', platform_system h), (''platform'', platform_platform h),
             (''machine'', platform_machine h), (''processor'', platform_processor h),
             (''python_version'', platform_python_version h),
             (''hostname'', platform_node h)]"

text \<open>The keyword arguments of \<open>SystemInfo(...)\<close> are evaluated from left to right; the
  first exception ends the call.\<close>

definition get_system_info :: "host \<Rightarrow> error + SystemInfo" where
  "get_system_info h =
     (case get_current_time (clock h) of
        Inl e \<Rightarrow> Inl e
      | Inr t \<Rightarrow>
     (case get_memory_usage (psutil_virtual_memory h) of
        Inl e \<Rightarrow> Inl e
      | Inr m \<Rightarrow>
     (case get_cpu_usage (psutil_cpu_percent h) (psutil_cpu_count h) (psutil_cpu_freq h)
             (psutil_getloadavg h) of
        Inl e \<Rightarrow> Inl e
      | Inr c \<Rightarrow>
     (case get_disk_usage (psutil_disk_usage h) of
        Inl e \<Rightarrow> Inl e
      | Inr d \<Rightarrow>
          Inr \<lparr>time_info = t, memory_info = m, cpu_info = c, disk_info = d,
               platform_info = platform_dict h\<rparr>))))"

subsection \<open>The uptime\<close>

text \<open>\<open>boot\<close> is the outcome of \<open>psutil.boot_time()\<close>, \<open>now\<close> that of
  \<open>datetime.now().timestamp()\<close>, read in this order. When the difference of the two is
  beyond the largest double it is an infinity, its floor division is not a number, and
  \<open>int\<close> raises \<open>ValueError\<close> inside the \<open>try\<close>.\<close>

definition get_system_uptime ::
    "(error \<Rightarrow> string) \<Rightarrow> error + real \<Rightarrow> error + real \<Rightarrow> string" where
  "get_system_uptime str_e boot now =
     (case boot of
        Inl e \<Rightarrow> ''Unable to get uptime: '' @ str_e e
      | Inr boot_time \<Rightarrow>
     (case now of
        Inl e \<Rightarrow> ''Unable to get uptime: '' @ str_e e
      | Inr now_ts \<Rightarrow>
     (case float_result (now_ts - boot_time) of
        Finite uptime_seconds \<Rightarrow>
          (let days = int_of_float (py_floordiv uptime_seconds 86400);
               hours = int_of_float (py_floordiv (py_mod uptime_seconds 86400) 3600);
               minutes = int_of_float (py_floordiv (py_mod uptime_seconds 3600) 60)
           in ''System uptime: '' @ str_int days @ '' days, '' @ str_int hours @
              '' hours, '' @ str_int minutes @ '' minutes'')
      | PosInf \<Rightarrow> ''Unable to get uptime: '' @ str_e (ValueError ''NaN'')
      | NegInf \<Rightarrow> ''Unable to get uptime: '' @ str_e (ValueError ''NaN''))))"

section \<open>Properties of the port lookup\<close>

subsection \<open>Auxiliary facts\<close>

text \<open>A line that does not hold the needle, or has fewer than five fields, leaves the
  loop where it was.\<close>

lemma scan_lines_skip:
  "\<forall>l \<in> set pre. \<not> (str_contains (port_needle p) l \<and> 5 \<le> length (re_split_ws (strip l)))
   \<Longrightarrow> scan_lines p (pre @ rest) = scan_lines p rest"
  by (induction pre) (auto simp: Let_def)


lemma port_needle_8080: "port_needle 8080 = '':8080 ''"
  by (simp add: port_needle_def str_int_def str_nat.simps digit_char_def)



lemmas py_int_eval =
  py_int_def to_ascii_def c_isspace_def is_digit_def digit_val_def int_max_str_digits_def

lemmas split_eval = strip_def re_split_ws_def py_isspace_def

subsection \<open>A matching line with a process id\<close>



subsection \<open>A matching line whose last field is no integer\<close>

text \<open>
  Claim C1, as the specification states it: a matching line with at least five fields
  whose last field is not an integer literal makes the lookup fail with the parse error.
  The program does not: the \<open>ValueError\<close> of \<open>int\<close> is raised inside the \<open>try\<close>, and
  \<open>except Exception\<close> turns it into the error record. At port 8080 and the one-line
  output below, the hypotheses of the claim hold and the call returns a record.
\<close>

theorem parse_failure_counterexample:
  "str_contains (port_needle 8080) ''  TCP    0.0.0.0:8080    0.0.0.0:0    LISTENING    abc'' \<and>
   re_split_ws (strip ''  TCP    0.0.0.0:8080    0.0.0.0:0    LISTENING    abc'') =
     [''TCP'', ''0.0.0.0:8080'', ''0.0.0.0:0'', ''LISTENING'', ''abc''] \<and>
   py_int ''abc'' = Inl (ValueError ''abc'') \<and>
   (\<forall>str_e. get_port_info_netstat str_e 8080
       (Inr ''  TCP    0.0.0.0:8080    0.0.0.0:0    LISTENING    abc'') =
     Inr \<lparr>port = 8080, pid = None, protocol = None, local_address = None,
          foreign_address = None, state = None,
          raw_line = ''Error: '' @ str_e (ValueError ''abc'')\<rparr>)"
proof -
  have parts: "re_split_ws (strip ''  TCP    0.0.0.0:8080    0.0.0.0:0    LISTENING    abc'') =
     [''TCP'', ''0.0.0.0:8080'', ''0.0.0.0:0'', ''LISTENING'', ''abc'']"
    by (simp add: split_eval)
  have num: "py_int ''abc'' = Inl (ValueError ''abc'')"
    by (simp add: py_int_eval)
  have hit: "str_contains (port_needle 8080)
      ''  TCP    0.0.0.0:8080    0.0.0.0:0    LISTENING    abc''"
    by (simp add: port_needle_8080)
  have lines: "splitlines ''  TCP    0.0.0.0:8080    0.0.0.0:0    LISTENING    abc'' =
      [''  TCP    0.0.0.0:8080    0.0.0.0:0    LISTENING    abc'']"
    by (simp add: splitlines_def is_linebreak_def)
  have "scan_lines 8080 [''  TCP    0.0.0.0:8080    0.0.0.0:0    LISTENING    abc''] =
      Inl (ValueError ''abc'')"
    using hit by (simp add: parts num Let_def)
  then have "\<forall>str_e. get_port_info_netstat str_e 8080
       (Inr ''  TCP    0.0.0.0:8080    0.0.0.0:0    LISTENING    abc'') =
     Inr \<lparr>port = 8080, pid = None, protocol = None, local_address = None,
          foreign_address = None, state = None,
          raw_line = ''Error: '' @ str_e (ValueError ''abc'')\<rparr>"
    by (simp add: get_port_info_netstat_def port_lookup_body_def lines error_record_def)
  with hit parts num show ?thesis
    by blast
qed

text \<open>
  Claim C1, amended. When the first line of the output that contains \<open>":<port> "\<close> and has
  at least five fields ends in a field that \<open>int\<close> rejects with the exception \<open>e\<close>, the
  lookup returns the record with every optional field absent and the raw line
  \<open>"Error: "\<close> followed by the text of \<open>e\<close>.
\<close>

theorem parse_failure_swallowed:
  assumes "splitlines out = pre @ line # post"
    and "\<forall>l \<in> set pre. \<not> (str_contains (port_needle p) l \<and> 5 \<le> length (re_split_ws (strip l)))"
    and "str_contains (port_needle p) line"
    and "5 \<le> length (re_split_ws (strip line))"
    and "py_int (last (re_split_ws (strip line))) = Inl e"
  shows "get_port_info_netstat str_e p (Inr out) =
     Inr \<lparr>port = p, pid = None, protocol = None, local_address = None,
          foreign_address = None, state = None, raw_line = ''Error: '' @ str_e e\<rparr>"
proof -
  have "scan_lines p (splitlines out) = scan_lines p (line # post)"
    using assms(1,2) by (simp add: scan_lines_skip)
  also have "\<dots> = Inl e"
    using assms(3-5) by (simp add: Let_def)
  finally show ?thesis
    by (simp add: get_port_info_netstat_def port_lookup_body_def error_record_def)
qed

theorem parse_failure_swallowed_witness:
  "\<forall>str_e. get_port_info_netstat str_e 8080
     (Inr (''  TCP    0.0.0.0:135    0.0.0.0:0    LISTENING    1040'' @ [CHR 0x0A] @
           ''  TCP    127.0.0.1:8080    127.0.0.1:50211    ESTABLISHED    12x4'' @ [CHR 0x0A])) =
     Inr \<lparr>port = 8080, pid = None, protocol = None, local_address = None,
          foreign_address = None, state = None,
          raw_line = ''Error: '' @ str_e (ValueError ''12x4'')\<rparr>"
proof
  fix str_e :: "error \<Rightarrow> string"
  let ?out = "''  TCP    0.0.0.0:135    0.0.0.0:0    LISTENING    1040'' @ [CHR 0x0A] @
           ''  TCP    127.0.0.1:8080    127.0.0.1:50211    ESTABLISHED    12x4'' @ [CHR 0x0A]"
  let ?line = "''  TCP    127.0.0.1:8080    127.0.0.1:50211    ESTABLISHED    12x4''"
  have lines: "splitlines ?out =
      [''  TCP    0.0.0.0:135    0.0.0.0:0    LISTENING    1040''] @ ?line # []"
    by (simp add: splitlines_def is_linebreak_def)
  have before: "\<forall>l \<in> set [''  TCP    0.0.0.0:135    0.0.0.0:0    LISTENING    1040''].
       \<not> (str_contains (port_needle 8080) l \<and> 5 \<le> length (re_split_ws (strip l)))"
    by (simp add: port_needle_8080)
  have hit: "str_contains (port_needle 8080) ?line"
    by (simp add: port_needle_8080)
  have parts: "re_split_ws (strip ?line) =
      [''TCP'', ''127.0.0.1:8080'', ''127.0.0.1:50211'', ''ESTABLISHED'', ''12x4'']"
    by (simp add: split_eval)
  have len: "5 \<le> length (re_split_ws (strip ?line))"
    by (simp add: parts)
  have num: "py_int (last (re_split_ws (strip ?line))) = Inl (ValueError ''12x4'')"
    by (simp add: parts py_int_eval)
  show "get_port_info_netstat str_e 8080 (Inr ?out) =
     Inr \<lparr>port = 8080, pid = None, protocol = None, local_address = None,
          foreign_address = None, state = None,
          raw_line = ''Error: '' @ str_e (ValueError ''12x4'')\<rparr>"
    using parse_failure_swallowed [OF lines before hit len num, of str_e] .
qed

subsection \<open>The lookup always returns a record\<close>

text \<open>
  Claim C2. For every port and every outcome of the command (an exception on launch or
  on reading, or any output), the lookup returns a record and raises nothing. An
  exception of the command, and any exception of the body of the \<open>try\<close>, becomes the
  record with every optional field absent and the raw line \<open>"Error: "\<close> followed by the
  text of the exception.
\<close>

theorem lookup_never_raises:
  "(\<exists>r. get_port_info_netstat str_e p run = Inr r \<and> port r = p) \<and>
   get_port_info_netstat str_e p (Inl e0) =
     Inr \<lparr>port = p, pid = None, protocol = None, local_address = None,
          foreign_address = None, state = None, raw_line = ''Error: '' @ str_e e0\<rparr> \<and>
   (\<forall>e. port_lookup_body p run = Inl e \<longrightarrow>
      get_port_info_netstat str_e p run =
        Inr \<lparr>port = p, pid = None, protocol = None, local_address = None,
             foreign_address = None, state = None, raw_line = ''Error: '' @ str_e e\<rparr>)"
proof (intro conjI allI impI)
  have port_kept: "port r = p" if "scan_lines p ls = Inr r" for ls r
    using that
    by (induction ls) (auto simp: not_found_def Let_def split: if_splits sum.splits)
  show "\<exists>r. get_port_info_netstat str_e p run = Inr r \<and> port r = p"
  proof (cases "port_lookup_body p run")
    case (Inl e)
    then show ?thesis
      by (simp add: get_port_info_netstat_def error_record_def)
  next
    case (Inr r)
    then have "port r = p"
      by (cases run) (auto simp: port_lookup_body_def port_kept)
    with Inr show ?thesis
      by (simp add: get_port_info_netstat_def)
  qed
next
  show "get_port_info_netstat str_e p (Inl e0) =
     Inr \<lparr>port = p, pid = None, protocol = None, local_address = None,
          foreign_address = None, state = None, raw_line = ''Error: '' @ str_e e0\<rparr>"
    by (simp add: get_port_info_netstat_def port_lookup_body_def error_record_def)
next
  fix e
  assume "port_lookup_body p run = Inl e"
  then show "get_port_info_netstat str_e p run =
        Inr \<lparr>port = p, pid = None, protocol = None, local_address = None,
             foreign_address = None, state = None, raw_line = ''Error: '' @ str_e e\<rparr>"
    by (simp add: get_port_info_netstat_def error_record_def)
qed

theorem lookup_never_raises_witness:
  "\<forall>str_e.
     get_port_info_netstat str_e 443 (Inl (OSError ''[WinError 2] file not found'')) =
       Inr \<lparr>port = 443, pid = None, protocol = None, local_address = None,
            foreign_address = None, state = None,
            raw_line = ''Error: '' @ str_e (OSError ''[WinError 2] file not found'')\<rparr> \<and>
     get_port_info_netstat str_e 8080
         (Inr ''  TCP    [::]:8080    [::]:0    LISTENING    -'') =
       Inr \<lparr>port = 8080, pid = None, protocol = None, local_address = None,
            foreign_address = None, state = None,
            raw_line = ''Error: '' @ str_e (ValueError ''-'')\<rparr>"
proof (intro allI conjI)
  fix str_e :: "error \<Rightarrow> string"
  show "get_port_info_netstat str_e 443 (Inl (OSError ''[WinError 2] file not found'')) =
       Inr \<lparr>port = 443, pid = None, protocol = None, local_address = None,
            foreign_address = None, state = None,
            raw_line = ''Error: '' @ str_e (OSError ''[WinError 2] file not found'')\<rparr>"
    using lookup_never_raises [of str_e 443 "Inl (OSError ''[WinError 2] file not found'')"
        "OSError ''[WinError 2] file not found''"]
    by blast
next
  fix str_e :: "error \<Rightarrow> string"
  let ?line = "''  TCP    [::]:8080    [::]:0    LISTENING    -''"
  have lines: "splitlines ?line = [?line]"
    by (simp add: splitlines_def is_linebreak_def)
  have parts: "re_split_ws (strip ?line) = [''TCP'', ''[::]:8080'', ''[::]:0'', ''LISTENING'', ''-'']"
    by (simp add: split_eval)
  have num: "py_int ''-'' = Inl (ValueError ''-'')"
    by (simp add: py_int_eval)
  have hit: "str_contains (port_needle 8080) ?line"
    by (simp add: port_needle_8080)
  have "port_lookup_body 8080 (Inr ?line) = Inl (ValueError ''-'')"
    using hit by (simp add: port_lookup_body_def lines parts num Let_def)
  with lookup_never_raises [of str_e 8080 "Inr ?line" "ValueError ''-''"]
  show "get_port_info_netstat str_e 8080 (Inr ?line) =
       Inr \<lparr>port = 8080, pid = None, protocol = None, local_address = None,
            foreign_address = None, state = None,
            raw_line = ''Error: '' @ str_e (ValueError ''-'')\<rparr>"
    by blast
qed

subsection \<open>No line holds the port\<close>



subsection \<open>Matching lines with fewer than five fields\<close>




section \<open>Properties of the collectors\<close>

subsection \<open>Doubles\<close>

lemma pow2_powr: "pow2 e = 2 powr (of_int e)"
proof (cases "0 \<le> e")
  case True
  then show ?thesis
    by (simp add: pow2_def powr_realpow [symmetric])
next
  case False
  then have neg: "real_of_int e = - real (nat (- e))"
    by simp
  have "2 powr (of_int e) = 1 / 2 powr (real (nat (- e)))"
    by (subst neg) (simp only: powr_minus_divide)
  also have "\<dots> = 1 / 2 ^ nat (- e)"
    by (simp only: powr_realpow zero_less_numeral)
  finally show ?thesis
    using False by (simp add: pow2_def)
qed

lemma pow2_pos [simp]: "0 < pow2 e"
  by (simp add: pow2_powr)

lemma pow2_add: "pow2 (a + b) = pow2 a * pow2 b"
  by (simp add: pow2_powr powr_add)

lemma pow2_diff: "pow2 (a - b) = pow2 a / pow2 b"
  by (simp add: pow2_powr powr_diff)

lemma pow2_mono: "a \<le> b \<Longrightarrow> pow2 a \<le> pow2 b"
  by (simp add: pow2_powr)

lemma pow2_le_iff: "pow2 a \<le> pow2 b \<longleftrightarrow> a \<le> b"
  by (simp add: pow2_powr)

lemma pow2_less_iff: "pow2 a < pow2 b \<longleftrightarrow> a < b"
  by (simp add: pow2_powr)

lemma pow2_nat: "0 \<le> e \<Longrightarrow> pow2 e = of_int (2 ^ nat e)"
  by (simp add: pow2_def)

lemma round_half_even_of_int [simp]: "round_half_even (of_int z) = z"
  by (simp add: round_half_even_def)

lemma round_half_even_near:
  "\<bar>of_int (round_half_even s) - s\<bar> \<le> 1 / 2 \<and>
   (\<bar>of_int (round_half_even s) - s\<bar> = 1 / 2 \<longrightarrow> even (round_half_even s))"
proof -
  define f where "f = \<lfloor>s\<rfloor>"
  define d where "d = s - of_int f"
  have d_range: "0 \<le> d" "d < 1"
    unfolding d_def f_def by linarith+
  show ?thesis
    using d_range unfolding round_half_even_def Let_def f_def [symmetric] d_def [symmetric]
    by (auto simp: d_def split: if_splits)
qed

lemma binade_bounds:
  assumes "0 < x"
  shows "pow2 (binade x) \<le> x \<and> x < pow2 (binade x + 1)"
proof (cases "1 \<le> x")
  case True
  define n where "n = \<lfloor>x\<rfloor>"
  have n_pos: "0 < n"
    using True unfolding n_def by linarith
  have l_pos: "1 \<le> bitlen n"
    using n_pos by (simp add: bitlen_alt_def)
  from bitlen_bounds [OF n_pos]
  have lo: "2 ^ nat (bitlen n - 1) \<le> n" and hi: "n < 2 ^ nat (bitlen n)"
    by simp_all
  have b: "binade x = bitlen n - 1"
    using True by (simp add: binade_def n_def)
  have "pow2 (bitlen n - 1) = of_int (2 ^ nat (bitlen n - 1))"
    using l_pos by (intro pow2_nat) simp
  also have "\<dots> \<le> of_int n"
    using lo by (simp only: of_int_le_iff)
  also have "\<dots> \<le> x"
    unfolding n_def by linarith
  finally have low: "pow2 (binade x) \<le> x"
    by (simp add: b)
  have "n + 1 \<le> 2 ^ nat (bitlen n)"
    using hi by simp
  then have "real_of_int (n + 1) \<le> of_int (2 ^ nat (bitlen n))"
    by (simp only: of_int_le_iff)
  moreover have "x < of_int (n + 1)"
    unfolding n_def by linarith
  moreover have "pow2 (bitlen n) = of_int (2 ^ nat (bitlen n))"
    using l_pos by (intro pow2_nat) simp
  ultimately have "x < pow2 (binade x + 1)"
    by (simp add: b)
  with low show ?thesis ..
next
  case False
  then have x1: "x < 1" by simp
  define y where "y = 1 / x"
  define n where "n = \<lfloor>y\<rfloor>"
  define l where "l = bitlen n"
  have y1: "1 < y"
    using assms x1 by (simp add: y_def)
  have n_pos: "0 < n"
    using y1 unfolding n_def by linarith
  have l_pos: "1 \<le> l"
    using n_pos by (simp add: l_def bitlen_alt_def)
  from bitlen_bounds [OF n_pos]
  have lo: "2 ^ nat (l - 1) \<le> n" and hi: "n < 2 ^ nat l"
    by (simp_all add: l_def)
  have "real_of_int (2 ^ nat (l - 1)) \<le> of_int n"
    using lo by (simp only: of_int_le_iff)
  also have "\<dots> \<le> y"
    unfolding n_def by linarith
  finally have y_lo: "2 ^ nat (l - 1) \<le> y"
    by simp
  have "n + 1 \<le> 2 ^ nat l"
    using hi by simp
  then have "real_of_int (n + 1) \<le> of_int (2 ^ nat l)"
    by (simp only: of_int_le_iff)
  moreover have "y < of_int (n + 1)"
    unfolding n_def by linarith
  ultimately have y_hi: "y < 2 ^ nat l"
    by simp
  have p1: "pow2 (1 - l) = 1 / 2 ^ nat (l - 1)"
    using l_pos by (auto simp: pow2_def)
  have p2: "pow2 (- l) = 1 / 2 ^ nat l"
    using l_pos by (auto simp: pow2_def)
  have x_hi: "x \<le> pow2 (1 - l)"
    using y_lo assms unfolding p1 y_def by (simp add: field_simps)
  have x_lo: "pow2 (- l) < x"
    using y_hi assms unfolding p2 y_def by (simp add: field_simps)
  show ?thesis
  proof (cases "x * 2 ^ nat (l - 1) = 1")
    case True
    then have b: "binade x = 1 - l"
      using x1 by (simp add: binade_def Let_def l_def n_def y_def)
    from True have "x = pow2 (1 - l)"
      unfolding p1 by (simp add: field_simps)
    moreover have "pow2 (1 - l) < pow2 (1 - l + 1)"
      by (simp add: pow2_less_iff)
    ultimately show ?thesis
      unfolding b by simp
  next
    case False
    then have b: "binade x = - l"
      using x1 by (simp add: binade_def Let_def l_def n_def y_def)
    from False have "x \<noteq> pow2 (1 - l)"
      unfolding p1 by (simp add: field_simps)
    with x_hi have "x < pow2 (1 - l)"
      by simp
    with x_lo show ?thesis
      by (simp add: b)
  qed
qed

lemma pow2_nonzero [simp]: "pow2 e \<noteq> 0"
  using pow2_pos [of e] by (simp del: pow2_pos)

lemma binade_le:
  assumes "0 < x" and "x \<le> pow2 k"
  shows "binade x \<le> k"
proof -
  from binade_bounds [OF assms(1)] assms(2) have "pow2 (binade x) \<le> pow2 k"
    by simp
  then show ?thesis
    by (simp only: pow2_le_iff)
qed

lemma binade_less:
  assumes "0 < x" and "x < pow2 k"
  shows "binade x < k"
proof -
  from binade_bounds [OF assms(1)] assms(2) have "pow2 (binade x) < pow2 k"
    by simp
  then show ?thesis
    by (simp only: pow2_less_iff)
qed

lemma binade_ge:
  assumes "0 < x" and "pow2 k \<le> x"
  shows "k \<le> binade x"
proof -
  from binade_bounds [OF assms(1)] assms(2) have "pow2 k < pow2 (binade x + 1)"
    by simp
  then have "k < binade x + 1"
    by (simp only: pow2_less_iff)
  then show ?thesis by simp
qed

text \<open>A number \<open>m * 2\<^sup>k\<close> with \<open>|m| \<le> 2\<^sup>5\<^sup>3\<close> and \<open>k \<ge> -1074\<close> is a double.\<close>

lemma nearest_double_fixed:
  assumes x: "x = of_int m * pow2 k"
    and m: "\<bar>m\<bar> \<le> 2 ^ 53"
    and k: "- 1074 \<le> k"
  shows "nearest_double x = x"
proof (cases "x = 0")
  case True
  then show ?thesis by (simp add: nearest_double_def)
next
  case False
  define a where "a = \<bar>x\<bar>"
  define e where "e = max (binade a - 52) (- 1074)"
  have a_pos: "0 < a"
    using False by (simp add: a_def)
  have p53: "pow2 53 = 2 ^ 53"
    by (simp add: pow2_def)
  have one: "pow2 1 = 2"
    by (simp add: pow2_def)
  have p1: "pow2 (k + 1) = pow2 k * 2"
    unfolding pow2_add one ..
  have a_eq: "a = of_int \<bar>m\<bar> * pow2 k"
    by (simp add: a_def x abs_mult abs_of_pos)
  have "of_int \<bar>m\<bar> \<le> (2 ^ 53 :: real)"
    using m by (metis of_int_le_iff of_int_numeral of_int_power)
  then have "a \<le> 2 ^ 53 * pow2 k"
    unfolding a_eq by (simp add: mult_right_mono)
  also have "\<dots> = pow2 (53 + k)"
    by (simp only: p53 [symmetric] pow2_add)
  finally have "binade a \<le> 53 + k"
    by (rule binade_le [OF a_pos])
  then have e_le: "e \<le> k + 1"
    using k by (simp add: e_def)
  have "\<exists>j::int. a / pow2 e = of_int j"
  proof (cases "e \<le> k")
    case True
    then have "pow2 (k - e) = of_int (2 ^ nat (k - e))"
      by (intro pow2_nat) simp
    then have q: "pow2 k / pow2 e = of_int (2 ^ nat (k - e))"
      by (simp only: pow2_diff)
    have "a / pow2 e = of_int \<bar>m\<bar> * (pow2 k / pow2 e)"
      unfolding a_eq by simp
    also have "\<dots> = of_int (\<bar>m\<bar> * 2 ^ nat (k - e))"
      unfolding q by simp
    finally show ?thesis ..
  next
    case False
    with e_le have e_eq: "e = k + 1"
      by simp
    then have "binade a - 52 = k + 1"
      using k by (simp add: e_def max_def split: if_splits)
    then have "binade a = 53 + k"
      by simp
    with binade_bounds [OF a_pos] have "pow2 (53 + k) \<le> a"
      by simp
    then have "2 ^ 53 * pow2 k \<le> of_int \<bar>m\<bar> * pow2 k"
      unfolding a_eq by (simp only: pow2_add p53)
    then have "(2 ^ 53 :: real) \<le> of_int \<bar>m\<bar>"
      by simp
    with \<open>of_int \<bar>m\<bar> \<le> (2 ^ 53 :: real)\<close> have "real_of_int \<bar>m\<bar> = 2 ^ 53"
      by simp
    then have "a / pow2 e = 2 ^ 53 * pow2 k / pow2 (k + 1)"
      unfolding a_eq e_eq by simp
    also have "\<dots> = of_int (2 ^ 52)"
      unfolding p1 by simp
    finally show ?thesis ..
  qed
  then obtain j :: int where j: "a / pow2 e = of_int j"
    ..
  then have "of_int (round_half_even (a / pow2 e)) * pow2 e = a"
    by (simp add: field_simps)
  then have "sgn x * of_int (round_half_even (a / pow2 e)) * pow2 e = sgn x * a"
    by (simp add: mult.assoc)
  also have "\<dots> = x"
    by (simp add: a_def sgn_mult_abs)
  finally show ?thesis
    using False by (simp add: nearest_double_def Let_def a_def e_def)
qed

lemma nearest_double_of_int:
  "\<bar>m\<bar> \<le> 2 ^ 53 \<Longrightarrow> nearest_double (of_int m) = of_int m"
  using nearest_double_fixed [of "of_int m" m 0] by (simp add: pow2_def)

lemmas double_eval = nearest_double_def binade_def pow2_def round_half_even_def Let_def
  compute_bitlen


lemma py_round_zero: "py_round 0 nd = 0"
  by (simp add: py_round_def nearest_double_def round_half_even_def)

lemma int_of_float_of_int: "int_of_float (of_int z) = z"
  by (simp add: int_of_float_def)

lemma float_result_finite:
  "nearest_double x = r \<Longrightarrow> \<bar>r\<bar> < 2 ^ 1024 \<Longrightarrow> float_result x = Finite r"
  by (auto simp: float_result_def Let_def)

lemma int_truediv_gib_exact:
  assumes "0 \<le> n" and "n \<le> 2 ^ 53"
  shows "int_truediv n (1024 ^ 3) = Inr (of_int n / 2 ^ 30)"
proof -
  have p: "pow2 (- 30) = 1 / 2 ^ 30"
    by (simp add: pow2_def)
  have "nearest_double (of_int n * pow2 (- 30)) = of_int n * pow2 (- 30)"
    using assms by (intro nearest_double_fixed [of _ n "- 30"]) simp_all
  then have exact: "nearest_double (of_int n / 2 ^ 30) = of_int n / 2 ^ 30"
    unfolding p by simp
  have "real_of_int n \<le> 2 ^ 53"
    using assms(2) by (metis of_int_le_iff of_int_numeral of_int_power)
  then have "\<bar>real_of_int n / 2 ^ 30\<bar> < 2 ^ 1024"
    using assms(1) by (simp add: field_simps)
  with exact have "float_result (of_int n / 2 ^ 30) = Finite (of_int n / 2 ^ 30)"
    by (rule float_result_finite)
  then show ?thesis
    by (simp add: int_truediv_def)
qed

subsection \<open>Bytes to gigabytes\<close>

text \<open>
  Claim C4, as the specification states it: for every non-negative byte count \<open>n\<close> the
  function returns \<open>n / 2\<^sup>3\<^sup>0\<close> rounded to two decimal places. The division of line 87 is a
  division in doubles. At \<open>n = 18014398643699713\<close> the quotient is rounded to
  \<open>16777216.125\<close> first, and the function returns the double of \<open>16777216.12\<close>, while
  \<open>n / 2\<^sup>3\<^sup>0\<close> rounded to two places is \<open>16777216.13\<close>. At \<open>n = 2\<^sup>1\<^sup>0\<^sup>5\<^sup>4\<close> the quotient is beyond
  the largest double, and the function returns nothing: it raises \<open>OverflowError\<close>.
\<close>

theorem bytes_to_gb_counterexample:
  "bytes_to_gb 18014398643699713 = Inr (nearest_double (1677721612 / 100)) \<and>
   round_half_even (18014398643699713 / 2 ^ 30 * 100) = 1677721613 \<and>
   nearest_double (1677721612 / 100) \<noteq> nearest_double (1677721613 / 100) \<and>
   bytes_to_gb (2 ^ 1054) = Inl OverflowError"
proof (intro conjI)
  have q: "nearest_double (18014398643699713 / 2 ^ 30) = 134217729 / 8"
    by (simp add: double_eval)
  have "float_result (18014398643699713 / 2 ^ 30) = Finite (134217729 / 8)"
    by (rule float_result_finite [OF q]) simp
  then have "int_truediv 18014398643699713 (1024 ^ 3) = Inr (134217729 / 8)"
    by (simp add: int_truediv_def)
  moreover have "round_half_even (134217729 / 8 * 10 ^ 2) = 1677721612"
    by (simp add: round_half_even_def Let_def)
  ultimately show "bytes_to_gb 18014398643699713 = Inr (nearest_double (1677721612 / 100))"
    by (simp add: bytes_to_gb_def py_round_def)
next
  show "round_half_even (18014398643699713 / 2 ^ 30 * 100) = 1677721613"
    by (simp add: round_half_even_def Let_def)
next
  have "nearest_double (1677721612 / 100) = 4503599659582751 / 2 ^ 28"
    by (simp add: double_eval)
  moreover have "nearest_double (1677721613 / 100) = 4503599662267105 / 2 ^ 28"
    by (simp add: double_eval)
  ultimately show "nearest_double (1677721612 / 100) \<noteq> nearest_double (1677721613 / 100)"
    by simp
next
  have "nearest_double (of_int 1 * pow2 1024) = of_int 1 * pow2 1024"
    by (intro nearest_double_fixed [of _ 1 1024]) simp_all
  then have "nearest_double (2 ^ 1024) = 2 ^ 1024"
    by (simp add: pow2_def)
  then have "float_result (2 ^ 1024) = PosInf"
    by (simp add: float_result_def)
  moreover have "(of_int (2 ^ 1054) :: real) / of_int (1024 ^ 3) = 2 ^ 1024"
    by simp
  ultimately show "bytes_to_gb (2 ^ 1054) = Inl OverflowError"
    by (simp add: bytes_to_gb_def int_truediv_def)
qed

text \<open>
  Claim C4, amended. For every byte count \<open>n\<close> with \<open>0 \<le> n \<le> 2\<^sup>5\<^sup>3\<close> the function returns
  the double nearest to \<open>k / 100\<close>, where \<open>k / 100\<close> is \<open>n / 2\<^sup>3\<^sup>0\<close> rounded to two decimal
  places: at most half a hundredth away from \<open>n / 2\<^sup>3\<^sup>0\<close>, and the even number of
  hundredths when \<open>n / 2\<^sup>3\<^sup>0\<close> lies exactly between two. The witness is \<open>n = 2\<^sup>2\<^sup>7\<close>, an
  eighth of a gigabyte, which lies between 0.12 and 0.13: the statement alone fixes the
  result, the double of 0.12.
\<close>

theorem bytes_to_gb_exact_quotient:
  assumes "0 \<le> n" and "n \<le> 2 ^ 53"
  shows "\<exists>k::int. bytes_to_gb n = Inr (nearest_double (real_of_int k / 100)) \<and>
           k = round_half_even (real_of_int n / 2 ^ 30 * 100) \<and>
           \<bar>real_of_int k / 100 - real_of_int n / 2 ^ 30\<bar> \<le> 1 / 200 \<and>
           (\<bar>real_of_int k / 100 - real_of_int n / 2 ^ 30\<bar> = 1 / 200 \<longrightarrow> even k)"
proof -
  define s where "s = real_of_int n / 2 ^ 30 * 100"
  define k where "k = round_half_even s"
  have run: "bytes_to_gb n = Inr (nearest_double (real_of_int k / 100))"
    using int_truediv_gib_exact [OF assms]
    by (simp add: bytes_to_gb_def py_round_def k_def s_def)
  from round_half_even_near [of s]
  have near: "\<bar>real_of_int k - s\<bar> \<le> 1 / 2"
    and tie: "\<bar>real_of_int k - s\<bar> = 1 / 2 \<longrightarrow> even k"
    unfolding k_def by blast+
  have eq: "real_of_int k / 100 - real_of_int n / 2 ^ 30 = (real_of_int k - s) / 100"
    by (simp add: s_def diff_divide_distrib)
  have scale: "\<bar>real_of_int k / 100 - real_of_int n / 2 ^ 30\<bar> =
      \<bar>real_of_int k - s\<bar> / 100"
    unfolding eq abs_divide by simp
  have "\<bar>real_of_int k / 100 - real_of_int n / 2 ^ 30\<bar> \<le> 1 / 200"
    unfolding scale using near by simp
  moreover have "\<bar>real_of_int k / 100 - real_of_int n / 2 ^ 30\<bar> = 1 / 200 \<longrightarrow> even k"
    unfolding scale using tie by simp
  ultimately show ?thesis
    using run k_def s_def by blast
qed

theorem bytes_to_gb_exact_quotient_witness:
  "bytes_to_gb 134217728 = Inr (nearest_double (12 / 100))"
proof -
  from bytes_to_gb_exact_quotient [of 134217728]
  obtain k :: int where run: "bytes_to_gb 134217728 = Inr (nearest_double (real_of_int k / 100))"
    and near: "\<bar>real_of_int k / 100 - real_of_int 134217728 / 2 ^ 30\<bar> \<le> 1 / 200"
    and tie: "\<bar>real_of_int k / 100 - real_of_int 134217728 / 2 ^ 30\<bar> = 1 / 200 \<longrightarrow> even k"
    by auto
  have eighth: "real_of_int 134217728 / 2 ^ 30 = 1 / 8"
    by simp
  from near have "\<bar>real_of_int k / 100 - 1 / 8\<bar> \<le> 1 / 200"
    unfolding eighth .
  then have "real_of_int 12 \<le> real_of_int k" "real_of_int k \<le> real_of_int 13"
    by (simp_all add: abs_le_iff field_simps)
  then have "12 \<le> k" "k \<le> 13"
    by (simp_all only: of_int_le_iff)
  then have "k = 12 \<or> k = 13"
    by arith
  moreover have "k \<noteq> 13"
  proof
    assume "k = 13"
    with tie eighth have "even (13::int)" by simp
    then show False by simp
  qed
  ultimately have "k = 12" by simp
  with run show ?thesis by simp
qed
subsection \<open>Bounds of a rounded number\<close>

lemma round_half_even_le: "s \<le> of_int z \<Longrightarrow> round_half_even s \<le> z"
proof -
  assume a: "s \<le> of_int z"
  then have "\<lfloor>s\<rfloor> \<le> z"
    by linarith
  moreover have "round_half_even s = \<lfloor>s\<rfloor>" if "\<lfloor>s\<rfloor> = z"
  proof -
    from that a have "s = of_int \<lfloor>s\<rfloor>"
      by linarith
    then have "round_half_even s = round_half_even (of_int \<lfloor>s\<rfloor>)"
      by simp
    then show ?thesis
      by (simp only: round_half_even_of_int)
  qed
  moreover have "round_half_even s \<le> \<lfloor>s\<rfloor> + 1"
    by (simp add: round_half_even_def Let_def)
  ultimately show ?thesis
    by (cases "\<lfloor>s\<rfloor> = z") simp_all
qed

lemma round_half_even_ge: "of_int z \<le> s \<Longrightarrow> z \<le> round_half_even s"
proof -
  assume "of_int z \<le> s"
  then have "z \<le> \<lfloor>s\<rfloor>"
    by (simp add: le_floor_iff)
  moreover have "\<lfloor>s\<rfloor> \<le> round_half_even s"
    by (simp add: round_half_even_def Let_def)
  ultimately show ?thesis by simp
qed

lemma nearest_double_bounds_pos:
  assumes "0 \<le> x" and "x \<le> pow2 j" and "- 1074 \<le> j"
  shows "0 \<le> nearest_double x \<and> nearest_double x \<le> pow2 j"
proof (cases "x = 0")
  case True
  then show ?thesis
    using pow2_pos [of j] by (simp add: nearest_double_def less_imp_le del: pow2_pos)
next
  case False
  with assms(1) have x_pos: "0 < x" by simp
  define e where "e = max (binade x - 52) (- 1074)"
  define r where "r = round_half_even (x / pow2 e)"
  have "binade x \<le> j"
    using x_pos assms(2) by (rule binade_le)
  then have e_le: "e \<le> j"
    using assms(3) by (simp add: e_def)
  have nd: "nearest_double x = of_int r * pow2 e"
    using x_pos by (simp add: nearest_double_def Let_def e_def r_def)
  have "x / pow2 e \<le> pow2 j / pow2 e"
    using assms(2) by (simp add: divide_right_mono less_imp_le)
  also have "\<dots> = pow2 (j - e)"
    by (simp only: pow2_diff)
  also have "\<dots> = of_int (2 ^ nat (j - e))"
    using e_le by (intro pow2_nat) simp
  finally have "r \<le> 2 ^ nat (j - e)"
    unfolding r_def by (rule round_half_even_le)
  then have "real_of_int r \<le> of_int (2 ^ nat (j - e))"
    by (simp only: of_int_le_iff)
  also have "\<dots> = pow2 (j - e)"
    using e_le by (intro pow2_nat [symmetric]) simp
  finally have "of_int r * pow2 e \<le> pow2 (j - e) * pow2 e"
    by (simp add: mult_right_mono less_imp_le)
  also have "\<dots> = pow2 j"
    by (simp add: pow2_add [symmetric])
  finally have upper: "nearest_double x \<le> pow2 j"
    by (simp only: nd)
  have "of_int 0 \<le> x / pow2 e"
    using x_pos by (simp add: less_imp_le)
  then have "0 \<le> r"
    unfolding r_def by (rule round_half_even_ge)
  then have "0 \<le> nearest_double x"
    unfolding nd by (simp add: less_imp_le)
  with upper show ?thesis by simp
qed

lemma nearest_double_bounds_abs:
  assumes "\<bar>x\<bar> \<le> pow2 j" and "- 1074 \<le> j"
  shows "\<bar>nearest_double x\<bar> \<le> pow2 j"
proof -
  have flip: "nearest_double (- y) = - nearest_double y" for y
    by (simp add: nearest_double_def Let_def)
  show ?thesis
  proof (cases "0 \<le> x")
    case True
    with nearest_double_bounds_pos [of x j] assms show ?thesis
      by simp
  next
    case False
    with nearest_double_bounds_pos [of "- x" j] assms show ?thesis
      by (simp add: flip)
  qed
qed

subsection \<open>The disk percentage\<close>

text \<open>
  Claim C5, as the specification states it: the percentage of the returned record is
  \<open>round(used_gb / total_gb * 100, 1)\<close> of its own two-decimal fields. The program divides
  the byte counts instead. For a disk of 2 GiB with 1078036791 bytes used, the record
  has \<open>total_gb = 2.0\<close>, \<open>used_gb = 1.0\<close> and the percentage \<open>50.2\<close>, while the fields give
  \<open>round(1.0 / 2.0 * 100, 1) = 50.0\<close>.
\<close>

theorem disk_percentage_counterexample:
  "get_disk_usage (Inr \<lparr>du_total = 2147483648, du_used = 1078036791, du_free = 1069446857\<rparr>) =
     Inr \<lparr>DiskInfo.total_gb = 2, DiskInfo.used_gb = 1, DiskInfo.free_gb = 1,
          DiskInfo.percentage_used = Finite (nearest_double (502 / 10))\<rparr> \<and>
   py_round (nearest_double (nearest_double (1 / 2) * 100)) 1 = 50 \<and>
   nearest_double (502 / 10) \<noteq> 50"
proof (intro conjI)
  have total: "bytes_to_gb 2147483648 = Inr 2"
    by (simp add: bytes_to_gb_def int_truediv_def float_result_def py_round_def double_eval)
  have used: "bytes_to_gb 1078036791 = Inr 1"
    by (simp add: bytes_to_gb_def int_truediv_def float_result_def py_round_def double_eval)
  have free: "bytes_to_gb 1069446857 = Inr 1"
    by (simp add: bytes_to_gb_def int_truediv_def float_result_def py_round_def double_eval)
  have quotient: "int_truediv 1078036791 2147483648 = Inr (1078036791 / 2147483648)"
    by (simp add: int_truediv_def float_result_def double_eval)
  have product: "float_result (26950919775 / 536870912) = Finite (26950919775 / 536870912)"
    by (simp add: float_result_def double_eval)
  have "round_half_even (26950919775 / 536870912 * 10 ^ Suc 0) = 502"
    by (simp add: round_half_even_def Let_def)
  then have tenths: "py_round (26950919775 / 536870912) (Suc 0) = nearest_double (251 / 5)"
    by (simp add: py_round_def)
  show "get_disk_usage (Inr \<lparr>du_total = 2147483648, du_used = 1078036791, du_free = 1069446857\<rparr>) =
     Inr \<lparr>DiskInfo.total_gb = 2, DiskInfo.used_gb = 1, DiskInfo.free_gb = 1,
          DiskInfo.percentage_used = Finite (nearest_double (502 / 10))\<rparr>"
    by (simp add: get_disk_usage_def total used free quotient product round_float_def tenths)
next
  show "py_round (nearest_double (nearest_double (1 / 2) * 100)) 1 = 50"
    by (simp add: py_round_def double_eval)
next
  have "nearest_double (502 / 10) = 3532510957718733 / 2 ^ 46"
    by (simp add: double_eval)
  then show "nearest_double (502 / 10) \<noteq> 50"
    by simp
qed

text \<open>
  Claim C5, amended. For every answer of the disk query for which \<open>get_disk_usage\<close>
  returns a record with \<open>total_gb > 0\<close>, the percentage of the record is
  \<open>round(used / total * 100, 1)\<close> of the byte counts \<open>used\<close> and \<open>total\<close> that the query
  answered, in double arithmetic: with \<open>q\<close> the double nearest to \<open>used / total\<close> and \<open>P\<close>
  the double nearest to \<open>q * 100\<close>, a finite percentage is the double nearest to
  \<open>k / 10\<close> for a whole number \<open>k\<close> of tenths at most a twentieth away from \<open>P\<close>, and the
  percentage is finite whenever \<open>0 \<le> used \<le> total\<close>.
\<close>

theorem disk_percentage_from_bytes:
  assumes "get_disk_usage (Inr d) = Inr r"
    and "0 < DiskInfo.total_gb r"
  shows "\<exists>q. int_truediv (du_used d) (du_total d) = Inr q \<and>
           q = nearest_double (real_of_int (du_used d) / real_of_int (du_total d)) \<and>
           DiskInfo.percentage_used r = round_float (float_result (q * 100)) 1 \<and>
           (\<forall>p. DiskInfo.percentage_used r = Finite p \<longrightarrow>
              (\<exists>k::int. p = nearest_double (real_of_int k / 10) \<and>
                 \<bar>real_of_int k / 10 - nearest_double (q * 100)\<bar> \<le> 1 / 20)) \<and>
           (0 \<le> du_used d \<and> du_used d \<le> du_total d \<longrightarrow>
              (\<exists>p. DiskInfo.percentage_used r = Finite p))"
proof -
  from assms(1) obtain q where q: "int_truediv (du_used d) (du_total d) = Inr q"
    and pct: "DiskInfo.percentage_used r = round_float (float_result (q * 100)) 1"
    by (auto simp: get_disk_usage_def split: sum.splits)
  from q have nonzero: "du_total d \<noteq> 0"
    by (auto simp: int_truediv_def split: if_splits)
  from q have q_eq: "q = nearest_double (real_of_int (du_used d) / real_of_int (du_total d))"
    by (auto simp: int_truediv_def float_result_def Let_def split: if_splits pyfloat.splits)
  have rounded: "\<exists>k::int. p = nearest_double (real_of_int k / 10) \<and>
      \<bar>real_of_int k / 10 - nearest_double (q * 100)\<bar> \<le> 1 / 20"
    if "DiskInfo.percentage_used r = Finite p" for p
  proof -
    define s where "s = nearest_double (q * 100) * 10"
    define k where "k = round_half_even s"
    from that pct have "p = py_round (nearest_double (q * 100)) 1"
      by (auto simp: round_float_def float_result_def Let_def split: pyfloat.splits if_splits)
    then have p: "p = nearest_double (real_of_int k / 10)"
      by (simp add: py_round_def k_def s_def)
    from round_half_even_near [of s] have near: "\<bar>real_of_int k - s\<bar> \<le> 1 / 2"
      unfolding k_def by blast
    have eq: "real_of_int k / 10 - nearest_double (q * 100) = (real_of_int k - s) / 10"
      by (simp add: s_def diff_divide_distrib)
    have "\<bar>real_of_int k / 10 - nearest_double (q * 100)\<bar> \<le> 1 / 20"
      unfolding eq abs_divide using near by simp
    with p show ?thesis by blast
  qed
  have finite: "\<exists>p. DiskInfo.percentage_used r = Finite p"
    if "0 \<le> du_used d \<and> du_used d \<le> du_total d"
  proof -
    from that nonzero have "0 \<le> real_of_int (du_used d) / real_of_int (du_total d)"
      and "real_of_int (du_used d) / real_of_int (du_total d) \<le> 1"
      by simp_all
    with nearest_double_bounds_pos [of "real_of_int (du_used d) / real_of_int (du_total d)" 0]
    have "0 \<le> q" "q \<le> 1"
      by (simp_all add: q_eq pow2_def)
    then have "0 \<le> q * 100" "q * 100 \<le> pow2 7"
      by (simp_all add: pow2_def)
    with nearest_double_bounds_pos [of "q * 100" 7]
    have "0 \<le> nearest_double (q * 100)" "nearest_double (q * 100) \<le> 128"
      by (simp_all add: pow2_def)
    then have "float_result (q * 100) = Finite (nearest_double (q * 100))"
      by (simp add: float_result_def Let_def)
    then show ?thesis
      by (simp add: pct round_float_def)
  qed
  from q q_eq pct rounded finite show ?thesis
    by blast
qed

theorem disk_percentage_from_bytes_witness:
  "DiskInfo.percentage_used
     \<lparr>DiskInfo.total_gb = 2, DiskInfo.used_gb = 1, DiskInfo.free_gb = 1,
      DiskInfo.percentage_used = Finite (nearest_double (502 / 10))\<rparr> =
   round_float (float_result
     (nearest_double (real_of_int 1078036791 / real_of_int 2147483648) * 100)) 1"
proof -
  let ?d = "\<lparr>du_total = 2147483648, du_used = 1078036791, du_free = 1069446857\<rparr>"
  let ?r = "\<lparr>DiskInfo.total_gb = 2, DiskInfo.used_gb = 1, DiskInfo.free_gb = 1,
      DiskInfo.percentage_used = Finite (nearest_double (502 / 10))\<rparr>"
  have run: "get_disk_usage (Inr ?d) = Inr ?r"
    using disk_percentage_counterexample by blast
  have pos: "0 < DiskInfo.total_gb ?r"
    by simp
  from disk_percentage_from_bytes [OF run pos] show ?thesis
    by auto
qed
subsection \<open>The load average\<close>

text \<open>
  Claim C7. Every record that \<open>get_cpu_usage\<close> returns has a load average of exactly
  three elements. When the load-average query fails with \<open>AttributeError\<close> or \<open>OSError\<close>
  (the host has no load average), a returned record has the load average
  \<open>[0.0, 0.0, 0.0]\<close>, and the call does return a record whenever the three other queries
  answer. The answer of \<open>psutil.getloadavg()\<close> is a tuple of three floats.
\<close>

theorem load_average_three:
  "(get_cpu_usage pq cq fq lq = Inr r \<longrightarrow> length (load_average r) = 3) \<and>
   ((lq = Inl (AttributeError m) \<or> lq = Inl (OSError m)) \<longrightarrow>
      (get_cpu_usage pq cq fq lq = Inr r \<longrightarrow> load_average r = [0, 0, 0]) \<and>
      get_cpu_usage (Inr pc) (Inr (Some n)) (Inr fr) lq =
        Inr \<lparr>cpu_percent = py_round pc 1, cpu_count = n,
             cpu_freq_current = py_round (case fr of Some f \<Rightarrow> f | None \<Rightarrow> 0) 1,
             load_average = [0, 0, 0]\<rparr>)"
proof (intro conjI impI)
  have len: "length la = 3" if "load_avg_or_zeros lq = Inr la" for la
    using that
    by (auto simp: load_avg_or_zeros_def split: sum.splits error.splits prod.splits)
  assume "get_cpu_usage pq cq fq lq = Inr r"
  then obtain la where "load_avg_or_zeros lq = Inr la"
    and "load_average r = map (\<lambda>x. py_round x 2) la"
    by (auto simp: get_cpu_usage_def Let_def split: sum.splits option.splits)
  with len show "length (load_average r) = 3"
    by simp
next
  assume unsupported: "lq = Inl (AttributeError m) \<or> lq = Inl (OSError m)"
  then have zeros: "load_avg_or_zeros lq = Inr [0, 0, 0]"
    by (auto simp: load_avg_or_zeros_def)
  show "get_cpu_usage (Inr pc) (Inr (Some n)) (Inr fr) lq =
        Inr \<lparr>cpu_percent = py_round pc 1, cpu_count = n,
             cpu_freq_current = py_round (case fr of Some f \<Rightarrow> f | None \<Rightarrow> 0) 1,
             load_average = [0, 0, 0]\<rparr>"
    by (simp add: get_cpu_usage_def zeros py_round_zero)
  assume "get_cpu_usage pq cq fq lq = Inr r"
  then show "load_average r = [0, 0, 0]"
    by (auto simp: get_cpu_usage_def Let_def zeros py_round_zero
        split: sum.splits option.splits)
qed

theorem load_average_three_witness:
  "get_cpu_usage (Inr (25 / 2)) (Inr (Some 8)) (Inr None)
      (Inl (AttributeError ''module psutil has no attribute getloadavg'')) =
     Inr \<lparr>cpu_percent = 25 / 2, cpu_count = 8, cpu_freq_current = 0,
          load_average = [0, 0, 0]\<rparr> \<and>
   length (load_average \<lparr>cpu_percent = 25 / 2, cpu_count = 8, cpu_freq_current = 0,
          load_average = [0, 0, 0]\<rparr>) = 3"
proof -
  let ?lq = "Inl (AttributeError ''module psutil has no attribute getloadavg'')
      :: error + real \<times> real \<times> real"
  let ?r = "\<lparr>cpu_percent = 25 / 2, cpu_count = 8, cpu_freq_current = 0,
          load_average = [0, 0, 0]\<rparr>"
  have half: "py_round (25 / 2) (Suc 0) = 25 / 2"
    by (simp add: py_round_def double_eval)
  from load_average_three [of "Inr (25 / 2)" "Inr (Some 8)" "Inr None" ?lq ?r
      "''module psutil has no attribute getloadavg''" "25 / 2" 8 None]
  have run: "get_cpu_usage (Inr (25 / 2)) (Inr (Some 8)) (Inr None) ?lq = Inr ?r"
    by (simp add: half py_round_zero)
  with load_average_three [of "Inr (25 / 2)" "Inr (Some 8)" "Inr None" ?lq ?r]
  show ?thesis by blast
qed

end
